theory Spec2Isabelle
  imports Complex_Main "HOL-Library.AList"
begin

section \<open>Python values, exceptions and the library the cache calls\<close>

text \<open>
  The cache of \<^verbatim>\<open>SimpleCache.py\<close> stores pickled, zlib-compressed return values in one
  file per call, named by a digest of the function name and the pickled argument tuple.
  Byte strings and text are both lists of \<^typ>\<open>char\<close> (a \<^typ>\<open>char\<close> is one byte; text is
  held as its UTF-8 bytes).
\<close>

type_synonym bytes = string

datatype pyval = PNone | PInt int | PStr string | PTuple "pyval list"

text \<open>The exceptions that the modelled statements can raise.\<close>

datatype error =
    AttributeError
  | ValueError
  | ZeroDivisionError
  | ZlibError
  | UnpicklingError
  | PicklingError
  | FileNotFoundError
  | TypeError

text \<open>
  A wrapped function: its \<^verbatim>\<open>__name__\<close> and what a call with a given list of positional
  arguments does (return a value or raise). The wrapped function is taken to be pure.
\<close>

record pyfun =
  fn_name :: string
  fn_call :: "pyval list \<Rightarrow> error + pyval"

text \<open>
  The functions of \<^verbatim>\<open>pickle\<close>, \<^verbatim>\<open>zlib\<close> and \<^verbatim>\<open>os.path\<close> that the class calls are
  parameters of the model. \<open>None\<close> stands for an exception raised by the library function.
  \<open>relpath_cache p\<close> is \<^verbatim>\<open>os.path.relpath(p, "cache")\<close>.
\<close>

record lib =
  pickle_dumps :: "pyval \<Rightarrow> bytes option"
  pickle_loads :: "bytes \<Rightarrow> pyval option"
  zlib_compress :: "bytes \<Rightarrow> bytes"
  zlib_decompress :: "bytes \<Rightarrow> bytes option"
  relpath_cache :: "string \<Rightarrow> string"

definition encode_utf8 :: "string \<Rightarrow> bytes" where
  "encode_utf8 t = t"

text \<open>\<^verbatim>\<open>os.path.join(a, b)\<close> of \<^verbatim>\<open>posixpath\<close>, for two components.\<close>

definition path_join :: "string \<Rightarrow> string \<Rightarrow> string" where
  "path_join a b =
     (if b \<noteq> [] \<and> hd b = CHR ''/'' then b
      else if a = [] \<or> last a = CHR ''/'' then a @ b
      else a @ ''/'' @ b)"

section \<open>The state of a Cache object and of its directory\<close>

text \<open>
  The attributes of a \<^verbatim>\<open>Cache\<close> instance, the regular files of its directory (\<open>files\<close>:
  path and content, as \<^verbatim>\<open>os.path.join(cacheDir, digest)\<close> names them), and a ghost
  field \<open>invocations\<close> that records the argument list of every call the wrapper makes
  to the wrapped function.
\<close>

record store =
  cacheDir :: string
  algorithm :: "bytes \<Rightarrow> string"
  maxSize :: int
  evictionSize :: int
  recentAccessed :: "string list"
  hits :: int
  misses :: int
  files :: "(string \<times> bytes) list"
  invocations :: "pyval list list"

text \<open>
  A statement that may raise returns the exception or its value, and the state it leaves.
  Failures of the file system itself (permissions, a full disk) are not modelled.
\<close>

type_synonym 'a outcome = "(error + 'a) \<times> store"

subsection \<open>\<^verbatim>\<open>clear\<close> and \<^verbatim>\<open>__init__\<close>\<close>

text \<open>\<^verbatim>\<open>shutil.rmtree(self.cacheDir); os.mkdir(self.cacheDir)\<close>: nothing else is assigned.\<close>

definition clear :: "store \<Rightarrow> store" where
  "clear s = s\<lparr>files := []\<rparr>"

text \<open>
  \<open>disk\<close> is what the directory holds when the object is constructed
  (\<^verbatim>\<open>mkdir(exist_ok=True)\<close> keeps it).
\<close>

definition Cache_init ::
  "string \<Rightarrow> (bytes \<Rightarrow> string) \<Rightarrow> int \<Rightarrow> int \<Rightarrow> bool \<Rightarrow> (string \<times> bytes) list \<Rightarrow> store" where
  "Cache_init dir alg m e startEmpty disk =
     (let s = \<lparr>cacheDir = dir, algorithm = alg, maxSize = m, evictionSize = e,
                recentAccessed = [], hits = 0, misses = 0, files = disk, invocations = []\<rparr>
      in if startEmpty then clear s else s)"

subsection \<open>Size accounting\<close>

text \<open>\<^verbatim>\<open>__get_cache_size\<close>: the loop over \<^verbatim>\<open>os.scandir\<close> adds each entry's size.\<close>

definition get_cache_size :: "store \<Rightarrow> int" where
  "get_cache_size s = fold (\<lambda>entry total. total + int (length (snd entry))) (files s) 0"

text \<open>
  \<^verbatim>\<open>__handle_cache_size\<close>: when the cache is over its maximum it evaluates
  \<^verbatim>\<open>self.__evict(self.evictionSize)\<close>. The class defines no method \<^verbatim>\<open>__evict\<close>
  (the mangled attribute \<^verbatim>\<open>_Cache__evict\<close> does not exist), so the attribute lookup raises
  \<^verbatim>\<open>AttributeError\<close>.
\<close>

definition handle_cache_size :: "store \<Rightarrow> unit outcome" where
  "handle_cache_size s =
     (let cacheSize = get_cache_size s
      in if cacheSize > maxSize s then (Inl AttributeError, s) else (Inr (), s))"

definition set_maxSize :: "store \<Rightarrow> int \<Rightarrow> unit outcome" where
  "set_maxSize s m = handle_cache_size (s\<lparr>maxSize := m\<rparr>)"

subsection \<open>\<^verbatim>\<open>get_info\<close>\<close>

text \<open>
  The dictionary that \<^verbatim>\<open>get_info\<close> returns. \<open>filled\<close> is the quotient of the two integers
  (Python rounds it to a float; the model keeps the exact rational, and takes the sizes to
  be in the range where the quotient of two integers is a float). The division is the only
  statement of \<^verbatim>\<open>get_info\<close> that can raise.
\<close>

record info =
  info_hits :: int
  info_misses :: int
  info_bytes :: int
  info_items :: nat
  info_filled :: rat

definition get_info :: "store \<Rightarrow> error + info" where
  "get_info s =
     (let cacheSizeBytes = get_cache_size s;
          cacheSize = length (recentAccessed s)
      in if maxSize s = 0 then Inl ZeroDivisionError
         else Inr \<lparr>info_hits = hits s, info_misses = misses s,
                   info_bytes = cacheSizeBytes, info_items = cacheSize,
                   info_filled = of_int cacheSizeBytes / of_int (maxSize s)\<rparr>)"

subsection \<open>Key derivation\<close>

text \<open>
  Line 217: \<^verbatim>\<open>self.algorithm(fname.encode("utf8") + pickle.dumps(args)).hexdigest()\<close>;
  \<open>algorithm s\<close> is the composition of the hash constructor and \<^verbatim>\<open>hexdigest\<close>.
\<close>

definition digest_name :: "lib \<Rightarrow> store \<Rightarrow> pyfun \<Rightarrow> pyval list \<Rightarrow> error + string" where
  "digest_name L s func args =
     (case pickle_dumps L (PTuple args) of
        None \<Rightarrow> Inl PicklingError
      | Some p \<Rightarrow> Inr (algorithm s (encode_utf8 (fn_name func) @ p)))"

definition build_file_name :: "lib \<Rightarrow> store \<Rightarrow> pyfun \<Rightarrow> pyval list \<Rightarrow> error + string" where
  "build_file_name L s func args =
     (case digest_name L s func args of
        Inl e \<Rightarrow> Inl e
      | Inr fname \<Rightarrow> Inr (path_join (cacheDir s) fname))"

subsection \<open>The recency list\<close>

text \<open>\<^verbatim>\<open>list.index\<close>: the first position of the element, \<open>None\<close> for \<^verbatim>\<open>ValueError\<close>.\<close>

fun index_of :: "'a list \<Rightarrow> 'a \<Rightarrow> nat option" where
  "index_of [] x = None"
| "index_of (y # ys) x = (if y = x then Some 0 else map_option Suc (index_of ys x))"

text \<open>
  \<^verbatim>\<open>__shift_node\<close>: \<^verbatim>\<open>[xs.pop(index)] + xs\<close> evaluates the pop first, so the right operand
  is the list without the popped element.
\<close>

definition shift_node :: "store \<Rightarrow> string \<Rightarrow> unit outcome" where
  "shift_node s node =
     (case index_of (recentAccessed s) node of
        None \<Rightarrow> (Inl ValueError, s)
      | Some i \<Rightarrow>
          (let popped = recentAccessed s ! i;
               rest = take i (recentAccessed s) @ drop (Suc i) (recentAccessed s)
           in (Inr (), s\<lparr>recentAccessed := [popped] @ rest\<rparr>)))"

subsection \<open>Reading and writing an entry\<close>

definition isfile :: "store \<Rightarrow> string \<Rightarrow> bool" where
  "isfile s fileName = (map_of (files s) fileName \<noteq> None)"

definition read_cache :: "lib \<Rightarrow> store \<Rightarrow> string \<Rightarrow> pyval outcome" where
  "read_cache L s fileName =
     (case map_of (files s) fileName of
        None \<Rightarrow> (Inl FileNotFoundError, s)
      | Some raw \<Rightarrow>
         (case zlib_decompress L raw of
            None \<Rightarrow> (Inl ZlibError, s)
          | Some content \<Rightarrow>
             (case pickle_loads L content of
                None \<Rightarrow> (Inl UnpicklingError, s)
              | Some variables \<Rightarrow>
                 (let node = relpath_cache L fileName
                  in case shift_node s node of
                       (Inl e, s') \<Rightarrow> (Inl e, s')
                     | (Inr u, s') \<Rightarrow> (Inr variables, s')))))"

text \<open>
  \<^verbatim>\<open>__write_cache\<close>: \<^verbatim>\<open>open(fileName, "wb")\<close> creates or truncates the file before
  \<^verbatim>\<open>pickle.dumps\<close> runs, so a value that cannot be pickled leaves an empty file.
\<close>

definition write_cache :: "lib \<Rightarrow> store \<Rightarrow> string \<Rightarrow> pyval \<Rightarrow> unit outcome" where
  "write_cache L s fileName returnVal =
     (case handle_cache_size s of
        (Inl e, s0) \<Rightarrow> (Inl e, s0)
      | (Inr u, s0) \<Rightarrow>
         (let s1 = s0\<lparr>files := AList.update fileName [] (files s0)\<rparr>
          in case pickle_dumps L returnVal of
               None \<Rightarrow> (Inl PicklingError, s1)
             | Some packed \<Rightarrow>
                (let compressed = zlib_compress L packed;
                     s2 = s1\<lparr>files := AList.update fileName compressed (files s1)\<rparr>;
                     node = relpath_cache L fileName
                 in (Inr (), s2\<lparr>recentAccessed := node # recentAccessed s2\<rparr>))))"

subsection \<open>The decorator\<close>

text \<open>
  \<^verbatim>\<open>wrapper(*args)\<close>: on a miss the wrapped function is called as \<^verbatim>\<open>func(args)\<close>, with
  the tuple as its one argument, when \<^verbatim>\<open>len(args) > 0\<close>, and as \<^verbatim>\<open>func()\<close> otherwise.
\<close>

definition wrapper :: "lib \<Rightarrow> store \<Rightarrow> pyfun \<Rightarrow> pyval list \<Rightarrow> pyval outcome" where
  "wrapper L s func args =
     (case build_file_name L s func args of
        Inl e \<Rightarrow> (Inl e, s)
      | Inr fileName \<Rightarrow>
         if isfile s fileName then read_cache L s fileName
         else
           (let actual = (if length args > 0 then [PTuple args] else []);
                s1 = s\<lparr>invocations := invocations s @ [actual]\<rparr>
            in case fn_call func actual of
                 Inl e \<Rightarrow> (Inl e, s1)
               | Inr returnVal \<Rightarrow>
                  (case write_cache L s1 fileName returnVal of
                     (Inl e, s2) \<Rightarrow> (Inl e, s2)
                   | (Inr u, s2) \<Rightarrow> (Inr returnVal, s2))))"

text \<open>A run of calls of the wrapped function, one argument tuple after the other; it
  stops at the first exception.\<close>

fun call_all :: "lib \<Rightarrow> store \<Rightarrow> pyfun \<Rightarrow> pyval list list \<Rightarrow> (pyval list) outcome" where
  "call_all L s func [] = (Inr [], s)"
| "call_all L s func (args # rest) =
     (case wrapper L s func args of
        (Inl e, s') \<Rightarrow> (Inl e, s')
      | (Inr v, s') \<Rightarrow>
         (case call_all L s' func rest of
            (Inl e, s'') \<Rightarrow> (Inl e, s'')
          | (Inr vs, s'') \<Rightarrow> (Inr (v # vs), s'')))"

section \<open>A small library instance for running the model\<close>

text \<open>
  To run the model on concrete inputs the library parameters are instantiated with small
  stand-ins: a pickler for \<open>None\<close>, strings, integers below 256 and flat tuples of such
  integers (anything else cannot be pickled), a compressor that prefixes one byte, a
  two-digit hexadecimal checksum for the hash, and \<^verbatim>\<open>relpath\<close> for a directory that lies
  beside \<^verbatim>\<open>cache\<close>.
\<close>

fun demo_small :: "pyval \<Rightarrow> bool" where
  "demo_small (PInt n) = (0 \<le> n \<and> n < 256)"
| "demo_small v = False"

fun demo_byte :: "pyval \<Rightarrow> char" where
  "demo_byte (PInt n) = char_of n"
| "demo_byte v = CHR ''?''"

fun demo_dumps :: "pyval \<Rightarrow> bytes option" where
  "demo_dumps PNone = Some ''N''"
| "demo_dumps (PStr t) = Some (CHR ''S'' # t)"
| "demo_dumps (PInt n) = (if demo_small (PInt n) then Some [CHR ''I'', char_of n] else None)"
| "demo_dumps (PTuple vs) =
     (if list_all demo_small vs then Some (CHR ''T'' # map demo_byte vs) else None)"

fun demo_loads :: "bytes \<Rightarrow> pyval option" where
  "demo_loads [] = None"
| "demo_loads (c # cs) =
     (if c = CHR ''N'' \<and> cs = [] then Some PNone
      else if c = CHR ''S'' then Some (PStr cs)
      else if c = CHR ''I'' \<and> length cs = 1 then Some (PInt (of_char (hd cs)))
      else if c = CHR ''T'' then Some (PTuple (map (\<lambda>b. PInt (of_char b)) cs))
      else None)"

definition demo_compress :: "bytes \<Rightarrow> bytes" where
  "demo_compress b = CHR ''z'' # b"

fun demo_decompress :: "bytes \<Rightarrow> bytes option" where
  "demo_decompress [] = None"
| "demo_decompress (c # cs) = (if c = CHR ''z'' then Some cs else None)"

definition demo_relpath :: "string \<Rightarrow> string" where
  "demo_relpath p = (if take 6 p = ''cache/'' then drop 6 p else ''../'' @ p)"

definition hexdigits :: string where
  "hexdigits = ''0123456789abcdef''"

definition demo_hexdigest :: "bytes \<Rightarrow> string" where
  "demo_hexdigest b =
     (let c = sum_list (map of_char b) mod (256::nat)
      in [hexdigits ! (c div 16), hexdigits ! (c mod 16)])"

definition demo_lib :: lib where
  "demo_lib = \<lparr>pickle_dumps = demo_dumps, pickle_loads = demo_loads,
                zlib_compress = demo_compress, zlib_decompress = demo_decompress,
                relpath_cache = demo_relpath\<rparr>"

text \<open>Two wrapped functions: one in the style of the repository's test (it unpacks the
  tuple it is handed), and one that reports how many positional arguments it received.\<close>

definition succ_fun :: pyfun where
  "succ_fun = \<lparr>fn_name = ''succ'',
       fn_call = (\<lambda>actual. case actual of
                     [PTuple [PInt n]] \<Rightarrow> Inr (PInt (n + 1))
                   | _ \<Rightarrow> Inl TypeError)\<rparr>"

definition count_args :: pyfun where
  "count_args = \<lparr>fn_name = ''count_args'',
       fn_call = (\<lambda>actual. Inr (PInt (int (length actual))))\<rparr>"

text \<open>A freshly constructed cache with the default directory \<^verbatim>\<open>cache\<close>.\<close>

definition fresh :: "int \<Rightarrow> (string \<times> bytes) list \<Rightarrow> store" where
  "fresh m disk = Cache_init ''cache'' demo_hexdigest m 1 False disk"

section \<open>The invariant of the recency list\<close>

text \<open>
  The recency list tracks the directory: it has no duplicates and holds exactly the
  \<^verbatim>\<open>relpath\<close> names of the files present.
\<close>

definition tracked :: "lib \<Rightarrow> store \<Rightarrow> bool" where
  "tracked L s \<longleftrightarrow>
     distinct (recentAccessed s)
     \<and> set (recentAccessed s) = set (map (\<lambda>entry. relpath_cache L (fst entry)) (files s))"

section \<open>Basic facts about the operations\<close>

lemma fold_size_acc:
  "fold (\<lambda>entry total. total + int (length (snd entry))) fs a
     = a + sum_list (map (\<lambda>entry. int (length (snd entry))) fs)"
  by (induction fs arbitrary: a) auto

lemma get_cache_size_sum:
  "get_cache_size s = sum_list (map (\<lambda>entry. int (length (snd entry))) (files s))"
  by (simp add: get_cache_size_def fold_size_acc)

lemma get_cache_size_clear: "get_cache_size (clear s) = 0"
  by (simp add: get_cache_size_def clear_def)

lemma index_of_None: "index_of xs x = None \<longleftrightarrow> x \<notin> set xs"
  by (induction xs) auto

lemma index_of_Some:
  "index_of xs x = Some i \<Longrightarrow> i < length xs \<and> xs ! i = x \<and> take i xs @ drop (Suc i) xs = remove1 x xs"
  by (induction xs arbitrary: i) (auto split: if_splits)

lemma index_of_head: "index_of (x # xs) x = Some 0"
  by simp

lemma index_of_absent: "x \<notin> set xs \<Longrightarrow> index_of xs x = None"
  by (simp add: index_of_None)

lemma shift_node_absent:
  "node \<notin> set (recentAccessed s) \<Longrightarrow> shift_node s node = (Inl ValueError, s)"
  by (simp add: shift_node_def index_of_absent)

lemma shift_node_present:
  assumes "node \<in> set (recentAccessed s)"
  shows "shift_node s node = (Inr (), s\<lparr>recentAccessed := node # remove1 node (recentAccessed s)\<rparr>)"
proof -
  from assms obtain i where i: "index_of (recentAccessed s) node = Some i"
    using index_of_None [of "recentAccessed s" node] by (cases "index_of (recentAccessed s) node") auto
  from index_of_Some [OF i] show ?thesis
    by (simp add: shift_node_def i Let_def)
qed

lemma handle_cache_size_over:
  "get_cache_size s > maxSize s \<Longrightarrow> handle_cache_size s = (Inl AttributeError, s)"
  by (simp add: handle_cache_size_def)

lemma handle_cache_size_within:
  "get_cache_size s \<le> maxSize s \<Longrightarrow> handle_cache_size s = (Inr (), s)"
  by (simp add: handle_cache_size_def)

lemma write_cache_over:
  "get_cache_size s > maxSize s \<Longrightarrow> write_cache L s fileName v = (Inl AttributeError, s)"
  by (simp add: write_cache_def handle_cache_size_over)

lemma write_cache_within:
  assumes "get_cache_size s \<le> maxSize s" and "pickle_dumps L v = Some packed"
  shows "write_cache L s fileName v =
           (Inr (), s\<lparr>files := AList.update fileName (zlib_compress L packed) (files s),
                      recentAccessed := relpath_cache L fileName # recentAccessed s\<rparr>)"
  using assms by (simp add: write_cache_def handle_cache_size_within Let_def)

lemma write_cache_unpicklable:
  assumes "get_cache_size s \<le> maxSize s" and "pickle_dumps L v = None"
  shows "write_cache L s fileName v = (Inl PicklingError, s\<lparr>files := AList.update fileName [] (files s)\<rparr>)"
  using assms by (simp add: write_cache_def handle_cache_size_within Let_def)

lemma write_cache_Inr_iff:
  "fst (write_cache L s fileName v) = Inr () \<longleftrightarrow> get_cache_size s \<le> maxSize s \<and> pickle_dumps L v \<noteq> None"
  by (cases "get_cache_size s \<le> maxSize s"; cases "pickle_dumps L v")
     (auto simp: write_cache_over write_cache_within write_cache_unpicklable)

lemma shift_node_head:
  "recentAccessed s = node # rest \<Longrightarrow> shift_node s node = (Inr (), s)"
  by (simp add: shift_node_def)

lemma read_cache_corrupt:
  assumes "map_of (files s) fileName = Some raw"
    and "zlib_decompress L raw = None \<or>
         (\<exists>content. zlib_decompress L raw = Some content \<and> pickle_loads L content = None)"
  shows "read_cache L s fileName = (Inl ZlibError, s) \<or> read_cache L s fileName = (Inl UnpicklingError, s)"
  using assms by (auto simp: read_cache_def)

lemma read_cache_valid:
  assumes "map_of (files s) fileName = Some raw"
    and "zlib_decompress L raw = Some content"
    and "pickle_loads L content = Some v"
  shows "read_cache L s fileName =
           (case shift_node s (relpath_cache L fileName) of
              (Inl e, s') \<Rightarrow> (Inl e, s') | (Inr u, s') \<Rightarrow> (Inr v, s'))"
  using assms by (simp add: read_cache_def)

lemma read_cache_untracked:
  assumes "map_of (files s) fileName = Some raw"
    and "zlib_decompress L raw = Some content"
    and "pickle_loads L content = Some v"
    and "relpath_cache L fileName \<notin> set (recentAccessed s)"
  shows "read_cache L s fileName = (Inl ValueError, s)"
  using assms by (simp add: read_cache_valid shift_node_absent)

lemma read_cache_tracked:
  assumes "map_of (files s) fileName = Some raw"
    and "zlib_decompress L raw = Some content"
    and "pickle_loads L content = Some v"
    and "relpath_cache L fileName \<in> set (recentAccessed s)"
  shows "read_cache L s fileName =
           (Inr v, s\<lparr>recentAccessed :=
              relpath_cache L fileName # remove1 (relpath_cache L fileName) (recentAccessed s)\<rparr>)"
  using assms by (simp add: read_cache_valid shift_node_present)

lemma read_cache_counters:
  "hits (snd (read_cache L s fileName)) = hits s \<and> misses (snd (read_cache L s fileName)) = misses s"
  by (auto simp: read_cache_def shift_node_def Let_def split: option.splits)

lemma write_cache_counters:
  "hits (snd (write_cache L s fileName v)) = hits s \<and> misses (snd (write_cache L s fileName v)) = misses s"
  by (auto simp: write_cache_def handle_cache_size_def Let_def split: option.splits)

lemma wrapper_counters:
  "hits (snd (wrapper L s func args)) = hits s \<and> misses (snd (wrapper L s func args)) = misses s"
proof (cases "build_file_name L s func args")
  case (Inl e)
  then show ?thesis by (simp add: wrapper_def)
next
  case (Inr fileName)
  show ?thesis
  proof (cases "isfile s fileName")
    case True
    with Inr show ?thesis by (simp add: wrapper_def read_cache_counters)
  next
    case False
    let ?actual = "if length args > 0 then [PTuple args] else []"
    let ?s1 = "s\<lparr>invocations := invocations s @ [?actual]\<rparr>"
    show ?thesis
    proof (cases "fn_call func ?actual")
      case (Inl e)
      with Inr False show ?thesis by (simp add: wrapper_def Let_def)
    next
      case (Inr v)
      obtain r s2 where w: "write_cache L ?s1 fileName v = (r, s2)" by (cases "write_cache L ?s1 fileName v")
      from write_cache_counters [of L ?s1 fileName v] w
      have "hits s2 = hits s \<and> misses s2 = misses s" by simp
      with \<open>build_file_name L s func args = Inr fileName\<close> False Inr w show ?thesis
        by (cases r) (simp_all add: wrapper_def Let_def)
    qed
  qed
qed

lemma call_all_counters:
  "hits (snd (call_all L s func argss)) = hits s \<and> misses (snd (call_all L s func argss)) = misses s"
proof (induction argss arbitrary: s)
  case Nil
  then show ?case by simp
next
  case (Cons args rest)
  obtain r s' where w: "wrapper L s func args = (r, s')" by (cases "wrapper L s func args")
  from wrapper_counters [of L s func args] w have c: "hits s' = hits s \<and> misses s' = misses s" by simp
  show ?case
  proof (cases r)
    case (Inl e)
    with w c show ?thesis by simp
  next
    case (Inr v)
    obtain r' s'' where k: "call_all L s' func rest = (r', s'')" by (cases "call_all L s' func rest")
    from Cons.IH [of s'] k c have "hits s'' = hits s \<and> misses s'' = misses s" by simp
    with w Inr k show ?thesis by (cases r') simp_all
  qed
qed

lemma read_cache_config:
  "cacheDir (snd (read_cache L s fileName)) = cacheDir s
   \<and> algorithm (snd (read_cache L s fileName)) = algorithm s
   \<and> maxSize (snd (read_cache L s fileName)) = maxSize s
   \<and> evictionSize (snd (read_cache L s fileName)) = evictionSize s"
  by (auto simp: read_cache_def shift_node_def Let_def split: option.splits)

lemma write_cache_config:
  "cacheDir (snd (write_cache L s fileName v)) = cacheDir s
   \<and> algorithm (snd (write_cache L s fileName v)) = algorithm s
   \<and> maxSize (snd (write_cache L s fileName v)) = maxSize s
   \<and> evictionSize (snd (write_cache L s fileName v)) = evictionSize s"
  by (auto simp: write_cache_def handle_cache_size_def Let_def split: option.splits)

lemma wrapper_config:
  "cacheDir (snd (wrapper L s func args)) = cacheDir s
   \<and> algorithm (snd (wrapper L s func args)) = algorithm s
   \<and> maxSize (snd (wrapper L s func args)) = maxSize s
   \<and> evictionSize (snd (wrapper L s func args)) = evictionSize s"
proof (cases "build_file_name L s func args")
  case (Inl e)
  then show ?thesis by (simp add: wrapper_def)
next
  case (Inr fileName)
  show ?thesis
  proof (cases "isfile s fileName")
    case True
    with Inr show ?thesis by (simp add: wrapper_def read_cache_config)
  next
    case False
    let ?actual = "if length args > 0 then [PTuple args] else []"
    let ?s1 = "s\<lparr>invocations := invocations s @ [?actual]\<rparr>"
    show ?thesis
    proof (cases "fn_call func ?actual")
      case (Inl e)
      with Inr False show ?thesis by (simp add: wrapper_def Let_def)
    next
      case (Inr v)
      obtain r s2 where w: "write_cache L ?s1 fileName v = (r, s2)"
        by (cases "write_cache L ?s1 fileName v")
      from write_cache_config [of L ?s1 fileName v] w
      have "cacheDir s2 = cacheDir s \<and> algorithm s2 = algorithm s
            \<and> maxSize s2 = maxSize s \<and> evictionSize s2 = evictionSize s"
        by simp
      with \<open>build_file_name L s func args = Inr fileName\<close> False Inr w show ?thesis
        by (cases r) (simp_all add: wrapper_def Let_def)
    qed
  qed
qed

section \<open>The recency list when nothing is cleared\<close>

text \<open>
  Without \<^verbatim>\<open>clear\<close>, and for a \<^verbatim>\<open>relpath\<close> that maps different paths to different names,
  every call of the wrapper that returns keeps the recency list in step with the
  directory and leaves the call's key at its head.
\<close>

lemma isfile_iff_key: "isfile s fileName \<longleftrightarrow> fileName \<in> fst ` set (files s)"
  by (simp add: isfile_def map_of_eq_None_iff)

lemma tracked_hit:
  assumes "tracked L s" and "relpath_cache L fileName \<in> set (recentAccessed s)"
  shows "tracked L (s\<lparr>recentAccessed :=
           relpath_cache L fileName # remove1 (relpath_cache L fileName) (recentAccessed s)\<rparr>)"
  using assms by (auto simp: tracked_def)

lemma tracked_miss:
  assumes "tracked L s" and "inj (relpath_cache L)" and "\<not> isfile s fileName"
  shows "tracked L (s\<lparr>files := AList.update fileName c (files s),
                       recentAccessed := relpath_cache L fileName # recentAccessed s,
                       invocations := i\<rparr>)"
proof -
  from assms(3) have "fileName \<notin> fst ` set (files s)" by (simp add: isfile_iff_key)
  with assms(2) have "relpath_cache L fileName \<notin> relpath_cache L ` fst ` set (files s)"
    by (auto dest: injD)
  moreover have "set (map (\<lambda>entry. relpath_cache L (fst entry)) (files s))
                   = relpath_cache L ` fst ` set (files s)"
    by (simp add: image_image)
  moreover have "set (map (\<lambda>entry. relpath_cache L (fst entry)) (AList.update fileName c (files s)))
                   = insert (relpath_cache L fileName) (relpath_cache L ` fst ` set (files s))"
    using dom_update [of fileName c "files s"] by (simp add: image_image [symmetric])
  ultimately show ?thesis using assms(1) by (simp add: tracked_def)
qed

lemma wrapper_keeps_tracked:
  assumes "tracked L s" and "inj (relpath_cache L)"
    and "build_file_name L s func args = Inr fileName"
    and "fst (wrapper L s func args) = Inr v"
  shows "tracked L (snd (wrapper L s func args))
       \<and> (\<exists>rest. recentAccessed (snd (wrapper L s func args)) = relpath_cache L fileName # rest)"
proof (cases "isfile s fileName")
  case True
  with assms(3) have w: "wrapper L s func args = read_cache L s fileName"
    by (simp add: wrapper_def)
  from True obtain raw where raw: "map_of (files s) fileName = Some raw"
    by (auto simp: isfile_def)
  from assms(4) w raw obtain content where content: "zlib_decompress L raw = Some content"
    by (cases "zlib_decompress L raw") (auto simp: read_cache_def)
  from assms(4) w raw content obtain v' where v': "pickle_loads L content = Some v'"
    by (cases "pickle_loads L content") (auto simp: read_cache_def)
  from True have "fileName \<in> fst ` set (files s)" by (simp add: isfile_iff_key)
  then have "relpath_cache L fileName \<in> set (map (\<lambda>entry. relpath_cache L (fst entry)) (files s))"
    by auto
  with assms(1) have node: "relpath_cache L fileName \<in> set (recentAccessed s)"
    by (simp add: tracked_def)
  from read_cache_tracked [OF raw content v' node] w tracked_hit [OF assms(1) node]
  show ?thesis by simp
next
  case False
  define actual where "actual = (if length args > 0 then [PTuple args] else [])"
  define s1 where "s1 = s\<lparr>invocations := invocations s @ [actual]\<rparr>"
  have unfolded: "wrapper L s func args =
      (case fn_call func actual of
         Inl e \<Rightarrow> (Inl e, s1)
       | Inr returnVal \<Rightarrow>
          (case write_cache L s1 fileName returnVal of
             (Inl e, s2) \<Rightarrow> (Inl e, s2)
           | (Inr u, s2) \<Rightarrow> (Inr returnVal, s2)))"
    unfolding wrapper_def Let_def s1_def actual_def using assms(3) False by simp
  from assms(4) obtain r where r: "fn_call func actual = Inr r"
    by (cases "fn_call func actual") (auto simp: unfolded)
  from assms(4) r have ok: "fst (write_cache L s1 fileName r) = Inr ()"
    by (cases "write_cache L s1 fileName r"; cases "fst (write_cache L s1 fileName r)")
       (auto simp: unfolded)
  then have within: "get_cache_size s1 \<le> maxSize s1" and "pickle_dumps L r \<noteq> None"
    by (simp_all add: write_cache_Inr_iff)
  then obtain packed where packed: "pickle_dumps L r = Some packed" by auto
  have "snd (wrapper L s func args)
          = s\<lparr>files := AList.update fileName (zlib_compress L packed) (files s),
               recentAccessed := relpath_cache L fileName # recentAccessed s,
               invocations := invocations s @ [actual]\<rparr>"
    by (simp add: unfolded r write_cache_within [OF within packed]) (simp add: s1_def)
  with tracked_miss [OF assms(1) assms(2) False] show ?thesis by simp
qed

lemma wrapper_returns_has_key:
  "fst (wrapper L s func args) = Inr v \<Longrightarrow> \<exists>fileName. build_file_name L s func args = Inr fileName"
  by (cases "build_file_name L s func args") (simp_all add: wrapper_def)

lemma Cache_init_tracked:
  "startEmpty \<or> disk = [] \<Longrightarrow> tracked L (Cache_init dir alg m e startEmpty disk)"
  by (auto simp: tracked_def Cache_init_def clear_def Let_def)

lemma call_all_keeps_tracked:
  assumes "inj (relpath_cache L)"
  shows "tracked L s \<Longrightarrow> fst (call_all L s func argss) = Inr vs \<Longrightarrow>
         tracked L (snd (call_all L s func argss))"
proof (induction argss arbitrary: s vs)
  case Nil
  then show ?case by simp
next
  case (Cons args rest)
  obtain r s' where w: "wrapper L s func args = (r, s')" by (cases "wrapper L s func args")
  with Cons.prems(2) obtain v where v: "r = Inr v" by (cases r) auto
  from w v have ret: "fst (wrapper L s func args) = Inr v" by simp
  then obtain fileName where "build_file_name L s func args = Inr fileName"
    using wrapper_returns_has_key by blast
  from wrapper_keeps_tracked [OF Cons.prems(1) assms this ret] w have t: "tracked L s'" by simp
  obtain r' s'' where k: "call_all L s' func rest = (r', s'')" by (cases "call_all L s' func rest")
  with Cons.prems(2) w v obtain vs' where vs': "r' = Inr vs'" by (cases r') auto
  from Cons.IH [OF t, of vs'] k vs' have "tracked L s''" by simp
  with w v k vs' show ?case by simp
qed

section \<open>Hit and miss counters\<close>

text \<open>
  C1 (hit/miss accounting), evaluated on the code for \<open>n = 2\<close>: a fresh cache, the calls
  \<^verbatim>\<open>succ(1)\<close>, \<^verbatim>\<open>succ(2)\<close> (two misses, stored) and their repeats (two hits, read from the
  files). All four calls return, and both counters are still zero: no statement of the
  class assigns \<open>hits\<close> or \<open>misses\<close> after \<^verbatim>\<open>__init__\<close> (lemma \<open>call_all_counters\<close>).
\<close>

theorem counters_never_counted:
  "fst (call_all demo_lib (fresh 100 []) succ_fun [[PInt 1], [PInt 2], [PInt 1], [PInt 2]])
     = Inr [PInt 2, PInt 3, PInt 2, PInt 3]
   \<and> invocations (snd (call_all demo_lib (fresh 100 []) succ_fun [[PInt 1], [PInt 2], [PInt 1], [PInt 2]]))
     = [[PTuple [PInt 1]], [PTuple [PInt 2]]]
   \<and> hits (snd (call_all demo_lib (fresh 100 []) succ_fun [[PInt 1], [PInt 2], [PInt 1], [PInt 2]])) = 0
   \<and> misses (snd (call_all demo_lib (fresh 100 []) succ_fun [[PInt 1], [PInt 2], [PInt 1], [PInt 2]])) = 0"
  by code_simp

section \<open>The size check before a write\<close>

text \<open>
  C2 (eviction before a write), evaluated on the code: a cache with the maximum size 5 and
  the eviction batch 1 after two stores of three bytes each. The directory holds 6 bytes,
  over the maximum, and two tracked entries. The next store raises \<^verbatim>\<open>AttributeError\<close>
  (the method \<^verbatim>\<open>__evict\<close> does not exist): no entry is evicted and nothing is written.
\<close>

theorem over_budget_store_raises:
  "get_cache_size (snd (call_all demo_lib (fresh 5 []) succ_fun [[PInt 1], [PInt 2]])) = 6
   \<and> maxSize (snd (call_all demo_lib (fresh 5 []) succ_fun [[PInt 1], [PInt 2]])) = 5
   \<and> evictionSize (snd (call_all demo_lib (fresh 5 []) succ_fun [[PInt 1], [PInt 2]])) = 1
   \<and> recentAccessed (snd (call_all demo_lib (fresh 5 []) succ_fun [[PInt 1], [PInt 2]])) = [''04'', ''03'']
   \<and> fst (write_cache demo_lib (snd (call_all demo_lib (fresh 5 []) succ_fun [[PInt 1], [PInt 2]]))
            ''cache/05'' (PInt 4)) = Inl AttributeError
   \<and> files (snd (write_cache demo_lib (snd (call_all demo_lib (fresh 5 []) succ_fun [[PInt 1], [PInt 2]]))
            ''cache/05'' (PInt 4)))
       = [(''cache/03'', [CHR ''z'', CHR ''I'', CHR 0x02]), (''cache/04'', [CHR ''z'', CHR ''I'', CHR 0x03])]
   \<and> recentAccessed (snd (write_cache demo_lib (snd (call_all demo_lib (fresh 5 []) succ_fun [[PInt 1], [PInt 2]]))
            ''cache/05'' (PInt 4))) = [''04'', ''03'']
   \<and> fst (wrapper demo_lib (snd (call_all demo_lib (fresh 5 []) succ_fun [[PInt 1], [PInt 2]]))
            succ_fun [PInt 3]) = Inl AttributeError"
  by code_simp

section \<open>The calling convention on a miss\<close>

text \<open>
  C3 as stated (the wrapped function is invoked with the caller's arguments and the wrapper
  returns its result for them) fails for a call with two arguments that misses: the function
  is invoked with one argument, the tuple, and the wrapper returns what it returns for that.
\<close>

theorem miss_passes_tuple_counterexample:
  "\<not> (invocations (snd (wrapper demo_lib (fresh 100 []) count_args [PInt 1, PInt 2]))
         = invocations (fresh 100 []) @ [[PInt 1, PInt 2]]
       \<and> fst (wrapper demo_lib (fresh 100 []) count_args [PInt 1, PInt 2])
         = fn_call count_args [PInt 1, PInt 2])"
  by code_simp

text \<open>
  C3, amended. On a miss (the key's file does not exist) the wrapper invokes the wrapped
  function exactly once: with no argument when the argument tuple is empty, and otherwise
  with a single argument, the whole tuple. If that invocation raises, the wrapper raises the
  same exception; if it returns \<open>v\<close>, the directory is within the maximum size and \<open>v\<close> can
  be pickled, the wrapper returns \<open>v\<close>.
\<close>

theorem miss_calling_convention:
  assumes "build_file_name L s func args = Inr fileName"
    and "\<not> isfile s fileName"
  shows "invocations (snd (wrapper L s func args))
           = invocations s @ [if args = [] then [] else [PTuple args]]
       \<and> (\<forall>e. fn_call func (if args = [] then [] else [PTuple args]) = Inl e
              \<longrightarrow> fst (wrapper L s func args) = Inl e)
       \<and> (\<forall>v. fn_call func (if args = [] then [] else [PTuple args]) = Inr v
              \<and> get_cache_size s \<le> maxSize s \<and> pickle_dumps L v \<noteq> None
              \<longrightarrow> fst (wrapper L s func args) = Inr v)"
proof -
  define actual where "actual = (if args = [] then [] else [PTuple args])"
  define s1 where "s1 = s\<lparr>invocations := invocations s @ [actual]\<rparr>"
  have act: "(if length args > 0 then [PTuple args] else []) = actual"
    by (simp add: actual_def)
  have size1: "get_cache_size s1 = get_cache_size s" "maxSize s1 = maxSize s"
    by (simp_all add: get_cache_size_def s1_def)
  have unfolded: "wrapper L s func args =
      (case fn_call func actual of
         Inl e \<Rightarrow> (Inl e, s1)
       | Inr returnVal \<Rightarrow>
          (case write_cache L s1 fileName returnVal of
             (Inl e, s2) \<Rightarrow> (Inl e, s2)
           | (Inr u, s2) \<Rightarrow> (Inr returnVal, s2)))"
    unfolding wrapper_def act Let_def s1_def using assms by simp
  have goal: "invocations (snd (wrapper L s func args)) = invocations s @ [actual]
       \<and> (\<forall>e. fn_call func actual = Inl e \<longrightarrow> fst (wrapper L s func args) = Inl e)
       \<and> (\<forall>v. fn_call func actual = Inr v
              \<and> get_cache_size s \<le> maxSize s \<and> pickle_dumps L v \<noteq> None
              \<longrightarrow> fst (wrapper L s func args) = Inr v)"
  proof (cases "fn_call func actual")
    case (Inl e)
    then show ?thesis by (simp add: unfolded s1_def)
  next
    case (Inr v)
    obtain r s2 where w: "write_cache L s1 fileName v = (r, s2)"
      by (cases "write_cache L s1 fileName v")
    have inv: "invocations s2 = invocations s1"
      using w by (auto simp: write_cache_def handle_cache_size_def Let_def split: option.splits if_splits)
    have ok: "get_cache_size s \<le> maxSize s \<and> pickle_dumps L v \<noteq> None \<longrightarrow> r = Inr ()"
      using write_cache_Inr_iff [of L s1 fileName v] w size1 by simp
    from Inr w inv ok show ?thesis
      by (cases r) (auto simp: unfolded s1_def)
  qed
  then show ?thesis unfolding actual_def .
qed

text \<open>A miss with one argument, in the style of the repository's test.\<close>

theorem miss_calling_convention_witness:
  "build_file_name demo_lib (fresh 100 []) succ_fun [PInt 1] = Inr ''cache/03''
   \<and> \<not> isfile (fresh 100 []) ''cache/03''
   \<and> fn_call succ_fun [PTuple [PInt 1]] = Inr (PInt 2)
   \<and> get_cache_size (fresh 100 []) \<le> maxSize (fresh 100 [])
   \<and> pickle_dumps demo_lib (PInt 2) \<noteq> None
   \<and> invocations (snd (wrapper demo_lib (fresh 100 []) succ_fun [PInt 1])) = [[PTuple [PInt 1]]]
   \<and> fst (wrapper demo_lib (fresh 100 []) succ_fun [PInt 1]) = Inr (PInt 2)"
proof -
  let ?s = "fresh 100 []"
  have h1: "build_file_name demo_lib ?s succ_fun [PInt 1] = Inr ''cache/03''" by code_simp
  have h2: "\<not> isfile ?s ''cache/03''" by code_simp
  have h3: "fn_call succ_fun [PTuple [PInt 1]] = Inr (PInt 2)" by code_simp
  have h4: "get_cache_size ?s \<le> maxSize ?s" by code_simp
  have h5: "pickle_dumps demo_lib (PInt 2) \<noteq> None" by code_simp
  have h6: "invocations ?s = []" by code_simp
  from miss_calling_convention [OF h1 h2] h3 h4 h5 h6
  have "invocations (snd (wrapper demo_lib ?s succ_fun [PInt 1])) = [[PTuple [PInt 1]]]
      \<and> fst (wrapper demo_lib ?s succ_fun [PInt 1]) = Inr (PInt 2)"
    by simp
  with h1 h2 h3 h4 h5 show ?thesis by simp
qed

section \<open>Clearing\<close>

lemma clear_counters: "hits (clear s) = hits s \<and> misses (clear s) = misses s"
  by (simp add: clear_def)

lemma clear_recentAccessed: "recentAccessed (clear s) = recentAccessed s"
  by (simp add: clear_def)

lemma clear_then_get_info:
  "maxSize s \<noteq> 0 \<Longrightarrow>
   get_info (clear s) = Inr \<lparr>info_hits = hits s, info_misses = misses s, info_bytes = 0,
                            info_items = length (recentAccessed s), info_filled = 0\<rparr>"
  by (simp add: get_info_def get_cache_size_clear Let_def) (simp add: clear_def)

text \<open>
  C4 (clear, then introspect), evaluated on the code: one stored entry, then \<^verbatim>\<open>clear()\<close>,
  then \<^verbatim>\<open>get_info()\<close>. The directory is empty and the byte size is zero, but the item count
  is 1: \<^verbatim>\<open>clear\<close> does not reset the recency list, whose length \<^verbatim>\<open>get_info\<close> reports as
  the number of items in the cache.
\<close>

theorem clear_keeps_item_count:
  "files (clear (snd (wrapper demo_lib (fresh 100 []) succ_fun [PInt 1]))) = []
   \<and> get_info (clear (snd (wrapper demo_lib (fresh 100 []) succ_fun [PInt 1])))
       = Inr \<lparr>info_hits = 0, info_misses = 0, info_bytes = 0, info_items = 1, info_filled = 0\<rparr>"
  by code_simp

section \<open>The recency list\<close>

text \<open>
  C5 (recency-list invariant), evaluated on the code: after a store and \<^verbatim>\<open>clear()\<close> the
  list still holds the key of the deleted file; the same call again is a miss and inserts
  the key a second time, so the list has a duplicate and two entries for one live file.
\<close>

theorem recency_list_after_clear:
  "recentAccessed (clear (snd (wrapper demo_lib (fresh 100 []) succ_fun [PInt 1]))) = [''03'']
   \<and> files (clear (snd (wrapper demo_lib (fresh 100 []) succ_fun [PInt 1]))) = []
   \<and> fst (wrapper demo_lib (clear (snd (wrapper demo_lib (fresh 100 []) succ_fun [PInt 1]))) succ_fun [PInt 1])
       = Inr (PInt 2)
   \<and> recentAccessed (snd (wrapper demo_lib (clear (snd (wrapper demo_lib (fresh 100 []) succ_fun [PInt 1])))
                             succ_fun [PInt 1])) = [''03'', ''03'']
   \<and> map fst (files (snd (wrapper demo_lib (clear (snd (wrapper demo_lib (fresh 100 []) succ_fun [PInt 1])))
                             succ_fun [PInt 1]))) = [''cache/03'']"
  by code_simp

section \<open>Store and lookup\<close>

text \<open>
  Within the size budget the round trip holds. Let \<open>v\<close> be a value that pickles to
  \<open>packed\<close>, where decompressing the compressed \<open>packed\<close> gives \<open>packed\<close> back and
  unpickling it gives \<open>v\<close>. In every state whose directory is within the maximum size,
  \<^verbatim>\<open>__write_cache\<close> of \<open>v\<close> under the file name \<open>k\<close> completes; and whenever it completes,
  \<^verbatim>\<open>__read_cache\<close> of \<open>k\<close> in the state it leaves returns \<open>v\<close> (and leaves that state as
  it is: \<open>k\<close> is already at the head of the recency list).
\<close>

lemma write_then_read_within_budget:
  assumes "pickle_dumps L v = Some packed"
    and "zlib_decompress L (zlib_compress L packed) = Some packed"
    and "pickle_loads L packed = Some v"
  shows "(get_cache_size s \<le> maxSize s \<longrightarrow> fst (write_cache L s k v) = Inr ())
       \<and> (fst (write_cache L s k v) = Inr () \<longrightarrow>
            read_cache L (snd (write_cache L s k v)) k = (Inr v, snd (write_cache L s k v)))"
proof (cases "get_cache_size s \<le> maxSize s")
  case True
  let ?s' = "s\<lparr>files := AList.update k (zlib_compress L packed) (files s),
                 recentAccessed := relpath_cache L k # recentAccessed s\<rparr>"
  from True assms(1) have w: "write_cache L s k v = (Inr (), ?s')"
    by (rule write_cache_within)
  have f: "map_of (files ?s') k = Some (zlib_compress L packed)"
    by (simp add: update_conv')
  have "read_cache L ?s' k = (Inr v, ?s')"
    by (simp add: read_cache_valid [OF f assms(2) assms(3)] shift_node_head [of ?s' "relpath_cache L k" "recentAccessed s"])
  with w show ?thesis by simp
next
  case False
  then show ?thesis by (simp add: write_cache_Inr_iff)
qed

text \<open>
  C6 (store/lookup round-trip), evaluated on the code: the cache with the maximum size 5
  after two stores (6 bytes on disk), and the value 9, which pickles, compresses,
  decompresses and unpickles back to 9. Storing 9 under the file name of an entry that
  exists raises \<^verbatim>\<open>AttributeError\<close> in the size check, before anything is written (the
  method \<^verbatim>\<open>__evict\<close> does not exist), and the lookup of that name then returns the old
  value 2, not 9. Storing 9 under a new file name raises in the same way, and the lookup
  of that name raises \<^verbatim>\<open>FileNotFoundError\<close>.
\<close>

theorem over_budget_store_loses_value:
  "Option.bind (pickle_dumps demo_lib (PInt 9))
       (\<lambda>packed. Option.bind (zlib_decompress demo_lib (zlib_compress demo_lib packed))
          (pickle_loads demo_lib)) = Some (PInt 9)
   \<and> get_cache_size (snd (call_all demo_lib (fresh 5 []) succ_fun [[PInt 1], [PInt 2]])) = 6
   \<and> maxSize (snd (call_all demo_lib (fresh 5 []) succ_fun [[PInt 1], [PInt 2]])) = 5
   \<and> fst (write_cache demo_lib (snd (call_all demo_lib (fresh 5 []) succ_fun [[PInt 1], [PInt 2]]))
            ''cache/03'' (PInt 9)) = Inl AttributeError
   \<and> fst (read_cache demo_lib
            (snd (write_cache demo_lib (snd (call_all demo_lib (fresh 5 []) succ_fun [[PInt 1], [PInt 2]]))
                    ''cache/03'' (PInt 9)))
            ''cache/03'') = Inr (PInt 2)
   \<and> fst (write_cache demo_lib (snd (call_all demo_lib (fresh 5 []) succ_fun [[PInt 1], [PInt 2]]))
            ''cache/05'' (PInt 9)) = Inl AttributeError
   \<and> fst (read_cache demo_lib
            (snd (write_cache demo_lib (snd (call_all demo_lib (fresh 5 []) succ_fun [[PInt 1], [PInt 2]]))
                    ''cache/05'' (PInt 9)))
            ''cache/05'') = Inl FileNotFoundError"
  by code_simp

section \<open>Corrupt entries\<close>

text \<open>
  C7 (corruption detection). If the file that a call's key names exists and its bytes do not
  decompress, or decompress to bytes that do not unpickle, then the call of the wrapper
  raises the decompression or unpickling error: no value is returned, and the state is left
  as it was, so the wrapped function is not invoked (the ghost field \<open>invocations\<close> is part
  of the state) and nothing is written. The exception is the one \<^verbatim>\<open>__read_cache\<close> raises.
\<close>

theorem corrupt_entry_raises:
  assumes "build_file_name L s func args = Inr fileName"
    and "map_of (files s) fileName = Some raw"
    and "zlib_decompress L raw = None \<or>
         (\<exists>content. zlib_decompress L raw = Some content \<and> pickle_loads L content = None)"
  shows "(fst (wrapper L s func args) = Inl ZlibError \<or> fst (wrapper L s func args) = Inl UnpicklingError)
       \<and> snd (wrapper L s func args) = s
       \<and> fst (read_cache L s fileName) = fst (wrapper L s func args)"
proof -
  from assms(2) have "isfile s fileName" by (simp add: isfile_def)
  with assms(1) have w: "wrapper L s func args = read_cache L s fileName"
    by (simp add: wrapper_def)
  from read_cache_corrupt [OF assms(2) assms(3)] w show ?thesis by auto
qed

text \<open>A garbage file under the key of \<^verbatim>\<open>succ(1)\<close>.\<close>

theorem corrupt_entry_raises_witness:
  "build_file_name demo_lib (fresh 100 [(''cache/03'', ''garbage'')]) succ_fun [PInt 1] = Inr ''cache/03''
   \<and> map_of (files (fresh 100 [(''cache/03'', ''garbage'')])) ''cache/03'' = Some ''garbage''
   \<and> zlib_decompress demo_lib ''garbage'' = None
   \<and> fst (wrapper demo_lib (fresh 100 [(''cache/03'', ''garbage'')]) succ_fun [PInt 1]) = Inl ZlibError
   \<and> invocations (snd (wrapper demo_lib (fresh 100 [(''cache/03'', ''garbage'')]) succ_fun [PInt 1])) = []"
proof -
  let ?s = "fresh 100 [(''cache/03'', ''garbage'')]"
  have h1: "build_file_name demo_lib ?s succ_fun [PInt 1] = Inr ''cache/03''" by code_simp
  have h2: "map_of (files ?s) ''cache/03'' = Some ''garbage''" by code_simp
  have h3: "zlib_decompress demo_lib ''garbage'' = None" by code_simp
  have h4: "fst (wrapper demo_lib ?s succ_fun [PInt 1]) \<noteq> Inl UnpicklingError" by code_simp
  have h5: "invocations ?s = []" by code_simp
  from corrupt_entry_raises [OF h1 h2 disjI1 [OF h3]] h4 h5
  have "fst (wrapper demo_lib ?s succ_fun [PInt 1]) = Inl ZlibError
      \<and> invocations (snd (wrapper demo_lib ?s succ_fun [PInt 1])) = []"
    by simp
  with h1 h2 h3 show ?thesis by simp
qed

section \<open>Entries on disk that the recency list does not hold\<close>

text \<open>
  C8 (hit on an entry that is on disk but not in the recency list), evaluated on the code:
  a cache constructed (without \<open>startEmpty\<close>) over a directory that holds a valid entry
  for \<^verbatim>\<open>succ(1)\<close>. The file decodes to 2, but the call raises \<^verbatim>\<open>ValueError\<close>:
  \<^verbatim>\<open>__shift_node\<close> looks the key up with \<^verbatim>\<open>list.index\<close> in the empty list. No value is
  returned and the key is not added to the list.
\<close>

theorem untracked_entry_raises:
  "recentAccessed (fresh 100 [(''cache/03'', [CHR ''z'', CHR ''I'', CHR 0x02])]) = []
   \<and> build_file_name demo_lib (fresh 100 [(''cache/03'', [CHR ''z'', CHR ''I'', CHR 0x02])]) succ_fun [PInt 1]
       = Inr ''cache/03''
   \<and> isfile (fresh 100 [(''cache/03'', [CHR ''z'', CHR ''I'', CHR 0x02])]) ''cache/03''
   \<and> Option.bind (zlib_decompress demo_lib [CHR ''z'', CHR ''I'', CHR 0x02]) (pickle_loads demo_lib)
       = Some (PInt 2)
   \<and> fst (wrapper demo_lib (fresh 100 [(''cache/03'', [CHR ''z'', CHR ''I'', CHR 0x02])]) succ_fun [PInt 1])
       = Inl ValueError
   \<and> recentAccessed (snd (wrapper demo_lib (fresh 100 [(''cache/03'', [CHR ''z'', CHR ''I'', CHR 0x02])])
                             succ_fun [PInt 1])) = []"
  by code_simp

section \<open>Key derivation\<close>

lemma demo_hexdigest_fixed:
  "length (demo_hexdigest b) = 2 \<and> set (demo_hexdigest b) \<subseteq> set hexdigits"
proof -
  have len: "length hexdigits = 16" by (simp add: hexdigits_def)
  have "\<And>k. k < 16 \<Longrightarrow> hexdigits ! k \<in> set hexdigits"
    using len by (metis nth_mem)
  then show ?thesis by (simp add: demo_hexdigest_def Let_def)
qed

text \<open>
  C9 (key-derivation determinism). The digest and the file name depend only on the
  function's name, the pickled argument tuple, the configured hash and the directory: two
  derivations for functions of the same name and argument tuples with equal pickles agree,
  in whatever two states of a cache with the same hash (and directory, for the path) they
  run. When the hash yields \<open>n\<close> hexadecimal digits on every input, the derived key is such
  a string of \<open>n\<close> hexadecimal digits.
\<close>

theorem key_derivation_deterministic:
  assumes "fn_name f1 = fn_name f2"
    and "pickle_dumps L (PTuple a1) = pickle_dumps L (PTuple a2)"
    and "algorithm s1 = algorithm s2"
    and "\<forall>b. length (algorithm s1 b) = n \<and> set (algorithm s1 b) \<subseteq> set hexdigits"
  shows "digest_name L s1 f1 a1 = digest_name L s2 f2 a2
       \<and> (cacheDir s1 = cacheDir s2 \<longrightarrow> build_file_name L s1 f1 a1 = build_file_name L s2 f2 a2)
       \<and> (\<forall>d. digest_name L s1 f1 a1 = Inr d \<longrightarrow> length d = n \<and> set d \<subseteq> set hexdigits)"
proof -
  have eq: "digest_name L s1 f1 a1 = digest_name L s2 f2 a2"
    using assms(1-3) by (simp add: digest_name_def split: option.splits)
  then have "cacheDir s1 = cacheDir s2 \<longrightarrow> build_file_name L s1 f1 a1 = build_file_name L s2 f2 a2"
    by (auto simp: build_file_name_def split: sum.splits)
  moreover have "\<forall>d. digest_name L s1 f1 a1 = Inr d \<longrightarrow> length d = n \<and> set d \<subseteq> set hexdigits"
    using assms(4) by (auto simp: digest_name_def split: option.splits)
  ultimately show ?thesis using eq by simp
qed

text \<open>Two functions of one name, in a fresh cache and in the cache after a call.\<close>

theorem key_derivation_deterministic_witness:
  "fn_name succ_fun = fn_name (succ_fun\<lparr>fn_call := fn_call count_args\<rparr>)
   \<and> digest_name demo_lib (fresh 100 []) succ_fun [PInt 1]
       = digest_name demo_lib (snd (wrapper demo_lib (fresh 100 []) succ_fun [PInt 2]))
           (succ_fun\<lparr>fn_call := fn_call count_args\<rparr>) [PInt 1]
   \<and> build_file_name demo_lib (fresh 100 []) succ_fun [PInt 1]
       = build_file_name demo_lib (snd (wrapper demo_lib (fresh 100 []) succ_fun [PInt 2]))
           (succ_fun\<lparr>fn_call := fn_call count_args\<rparr>) [PInt 1]
   \<and> digest_name demo_lib (fresh 100 []) succ_fun [PInt 1] = Inr ''03''
   \<and> length ''03'' = 2 \<and> set ''03'' \<subseteq> set hexdigits"
proof -
  let ?s1 = "fresh 100 []"
  let ?s2 = "snd (wrapper demo_lib (fresh 100 []) succ_fun [PInt 2])"
  let ?f2 = "succ_fun\<lparr>fn_call := fn_call count_args\<rparr>"
  have h1: "fn_name succ_fun = fn_name ?f2" by simp
  have h2: "pickle_dumps demo_lib (PTuple [PInt 1]) = pickle_dumps demo_lib (PTuple [PInt 1])" by simp
  have a1: "algorithm ?s1 = demo_hexdigest" by (simp add: fresh_def Cache_init_def)
  have a2: "algorithm ?s2 = demo_hexdigest"
    by (simp add: wrapper_config a1)
  have h3: "algorithm ?s1 = algorithm ?s2" by (simp add: a1 a2)
  have h4: "\<forall>b. length (algorithm ?s1 b) = 2 \<and> set (algorithm ?s1 b) \<subseteq> set hexdigits"
    by (simp add: a1 demo_hexdigest_fixed)
  have c: "cacheDir ?s1 = cacheDir ?s2" by code_simp
  have d: "digest_name demo_lib ?s1 succ_fun [PInt 1] = Inr ''03''" by code_simp
  from key_derivation_deterministic [OF h1 h2 h3 h4] c d h1 show ?thesis by simp
qed

section \<open>Introspection\<close>

lemma set_maxSize_maxSize: "maxSize (snd (set_maxSize s m)) = m"
  by (simp add: set_maxSize_def handle_cache_size_def Let_def)

lemma Cache_init_maxSize: "maxSize (Cache_init dir alg m e startEmpty disk) = m"
  by (simp add: Cache_init_def clear_def Let_def)

text \<open>
  C10 (the fill ratio divides by the maximum size). \<^verbatim>\<open>get_info\<close> returns its record
  exactly when \<open>maxSize\<close> is not zero, and raises \<^verbatim>\<open>ZeroDivisionError\<close> exactly when it is
  zero; this is the state that construction with \<open>maxSize = 0\<close> and \<^verbatim>\<open>set_maxSize(0)\<close>
  (whether or not its size check raises) leave behind.
\<close>

theorem get_info_needs_nonzero_maxSize:
  "((\<exists>r. get_info s = Inr r) \<longleftrightarrow> maxSize s \<noteq> 0)
   \<and> (get_info s = Inl ZeroDivisionError \<longleftrightarrow> maxSize s = 0)
   \<and> get_info (Cache_init dir alg 0 e startEmpty disk) = Inl ZeroDivisionError
   \<and> get_info (snd (set_maxSize s 0)) = Inl ZeroDivisionError"
proof -
  have a: "\<And>t. maxSize t = 0 \<Longrightarrow> get_info t = Inl ZeroDivisionError"
    by (simp add: get_info_def)
  have b: "\<And>t. maxSize t \<noteq> 0 \<Longrightarrow> \<exists>r. get_info t = Inr r"
    by (simp add: get_info_def Let_def)
  have "(\<exists>r. get_info s = Inr r) \<longleftrightarrow> maxSize s \<noteq> 0"
    using a [of s] b [of s] by (cases "maxSize s = 0") auto
  moreover have "get_info s = Inl ZeroDivisionError \<longleftrightarrow> maxSize s = 0"
    using a [of s] b [of s] by (cases "maxSize s = 0") auto
  moreover have "get_info (Cache_init dir alg 0 e startEmpty disk) = Inl ZeroDivisionError"
    by (rule a) (rule Cache_init_maxSize)
  moreover have "get_info (snd (set_maxSize s 0)) = Inl ZeroDivisionError"
    by (rule a) (rule set_maxSize_maxSize)
  ultimately show ?thesis by simp
qed

text \<open>A cache constructed with the maximum 100 answers; after \<^verbatim>\<open>set_maxSize(0)\<close>, and when
  constructed with the maximum 0, \<^verbatim>\<open>get_info\<close> raises.\<close>

theorem get_info_needs_nonzero_maxSize_witness:
  "maxSize (fresh 100 []) \<noteq> 0
   \<and> get_info (fresh 100 [])
       = Inr \<lparr>info_hits = 0, info_misses = 0, info_bytes = 0, info_items = 0, info_filled = 0\<rparr>
   \<and> maxSize (fresh 0 []) = 0
   \<and> get_info (fresh 0 []) = Inl ZeroDivisionError
   \<and> get_info (snd (set_maxSize (fresh 100 []) 0)) = Inl ZeroDivisionError"
proof -
  have h1: "maxSize (fresh 100 []) \<noteq> 0" by code_simp
  have h2: "maxSize (fresh 0 []) = 0" by code_simp
  from get_info_needs_nonzero_maxSize [of "fresh 100 []"] h1
  obtain r where r: "get_info (fresh 100 []) = Inr r" by blast
  have v: "get_info (fresh 100 [])
       = Inr \<lparr>info_hits = 0, info_misses = 0, info_bytes = 0, info_items = 0, info_filled = 0\<rparr>"
    by code_simp
  from get_info_needs_nonzero_maxSize [of "fresh 0 []"] h2
  have z: "get_info (fresh 0 []) = Inl ZeroDivisionError" by simp
  from get_info_needs_nonzero_maxSize [of "fresh 100 []"]
  have m: "get_info (snd (set_maxSize (fresh 100 []) 0)) = Inl ZeroDivisionError" by simp
  from h1 h2 v z m show ?thesis by simp
qed

end
